theory Spec2Isabelle
  imports Main
begin

section \<open>Data model (posapp/models.py)\<close>

text \<open>
  The tables of \<^verbatim>\<open>models.py\<close> are lists of rows, each row a record with the columns the
  operations below read or write. Identifiers (UUIDs, user and business ids) are natural
  numbers, timestamps are natural numbers, and a \<^verbatim>\<open>DecimalField(decimal_places=2)\<close> is an
  integer number of hundredths. \<^verbatim>\<open>Product.stock\<close> is an \<^verbatim>\<open>IntegerField\<close>, hence an \<open>int\<close>;
  \<^verbatim>\<open>SaleItem.quantity\<close> is a \<^verbatim>\<open>PositiveIntegerField\<close>, hence a \<open>nat\<close> (zero included, as in
  Django). The number a product has within its business is the column \<^verbatim>\<open>id\<close> of
  \<^verbatim>\<open>models.py\<close>, \<open>p_id\<close> here; \<^verbatim>\<open>models.py\<close> declares no field called \<^verbatim>\<open>local_id\<close>. The
  columns \<^verbatim>\<open>description\<close> and \<^verbatim>\<open>image\<close> of a product are left out: no operation below
  branches on them.
\<close>

type_synonym business_id = nat
type_synonym user_id = nat
type_synonym uuid = nat
type_synonym timestamp = nat
type_synonym money = int

datatype role = Admin | Worker

record product =
  p_server_id :: uuid
  p_id :: nat
  p_business :: business_id
  p_name :: string
  p_qr_code :: "string option"
  p_price :: money
  p_stock :: int
  p_updated_at :: timestamp
  p_active :: bool

record sale =
  s_uuid :: uuid
  s_business :: business_id
  s_total :: money
  s_created_at :: timestamp
  s_updated_at :: timestamp
  s_synced_from_device :: bool
  s_active :: bool
  s_created_by :: "user_id option"
  s_pending_approval :: bool

record sale_item =
  si_sale :: uuid
  si_product :: uuid
  si_quantity :: nat
  si_total_price :: money

text \<open>The database: the three tables, \<open>sale_items\<close> in the order of its auto-increment key.\<close>

record store =
  products :: "product list"
  sales :: "sale list"
  sale_items :: "sale_item list"

text \<open>
  The authenticated request: the user, and the business and role of its profile. The
  permission class \<^verbatim>\<open>IsInBusiness\<close> admits only users with a profile and a business, so
  the branch \<^verbatim>\<open>if not business\<close> of the views is not reachable and a request always
  carries a business.
\<close>

record request =
  r_user :: user_id
  r_business :: business_id
  r_role :: role

text \<open>
  Exceptions raised inside an operation, and what a view answers. An exception that a
  view does not turn into a 4xx answer ends the request with status 500; what was saved
  before it stays saved, since no view, serializer or model of the source opens a
  transaction.
\<close>

datatype exn = IntegrityError | ValidationError | DoesNotExist | FieldError

datatype response =
    OK
  | AlreadyActive
  | Forbidden
  | NotFound
  | Invalid
  | InsufficientStock string
  | ServerError exn

section \<open>Field names\<close>

text \<open>
  The names a query on \<^verbatim>\<open>Product\<close> can filter by: the fields \<^verbatim>\<open>models.py\<close> declares for
  it, the column name of its foreign key, the alias \<^verbatim>\<open>pk\<close> and the reverse relation of
  \<^verbatim>\<open>SaleItem.product\<close>.
\<close>

definition Product_fields :: "string list" where
  "Product_fields =
     [''server_id'', ''id'', ''business'', ''business_id'', ''name'', ''description'',
      ''qr_code'', ''image'', ''price'', ''stock'', ''updated_at'', ''active'', ''pk'',
      ''sale_items'']"

text \<open>
  A query on \<^verbatim>\<open>Product\<close> by keyword arguments (\<^verbatim>\<open>get\<close>, \<^verbatim>\<open>filter\<close>,
  \<^verbatim>\<open>update_or_create\<close>): a keyword that names none of these raises \<^verbatim>\<open>FieldError\<close> when the
  query is built, before any row is read or written.
\<close>

definition Product_lookup :: "string list \<Rightarrow> exn option" where
  "Product_lookup keys =
     (if list_all (\<lambda>k. k \<in> set Product_fields) keys then None else Some FieldError)"

section \<open>Saving rows\<close>

text \<open>\<^verbatim>\<open>Product.objects.filter(business=...).order_by('-id').first()\<close>, then \<^verbatim>\<open>id + 1\<close>, or 1.\<close>

definition next_id :: "business_id \<Rightarrow> product list \<Rightarrow> nat" where
  "next_id b ps =
     (case filter (\<lambda>q. p_business q = b) ps of
        [] \<Rightarrow> 1
      | q # qs \<Rightarrow> fold max (map p_id qs) (p_id q) + 1)"

text \<open>
  \<^verbatim>\<open>unique_together = [['business', 'qr_code'], ['business', 'id']]\<close>: another row of the
  same business with the same id, or with the same non-null QR code.
\<close>

definition violates_unique :: "product \<Rightarrow> product list \<Rightarrow> bool" where
  "violates_unique p ps =
     list_ex (\<lambda>q. p_server_id q \<noteq> p_server_id p \<and> p_business q = p_business p \<and>
                  (p_id q = p_id p \<or>
                   (p_qr_code p \<noteq> None \<and> p_qr_code q = p_qr_code p))) ps"

text \<open>Writing a row by primary key: replace the row with that key, or append a new one.\<close>

definition write_product :: "product \<Rightarrow> product list \<Rightarrow> product list" where
  "write_product p ps =
     (if list_ex (\<lambda>q. p_server_id q = p_server_id p) ps
      then map (\<lambda>q. if p_server_id q = p_server_id p then p else q) ps
      else ps @ [p])"

definition write_sale :: "sale \<Rightarrow> sale list \<Rightarrow> sale list" where
  "write_sale s ss =
     (if list_ex (\<lambda>t. s_uuid t = s_uuid s) ss
      then map (\<lambda>t. if s_uuid t = s_uuid s then s else t) ss
      else ss @ [s])"

text \<open>
  \<^verbatim>\<open>Product.save\<close>: stamps \<^verbatim>\<open>updated_at\<close> with the server's clock, numbers a product that
  has no id yet, then writes the row. The database refuses a row that breaks a
  uniqueness constraint.
\<close>

definition Product_save :: "timestamp \<Rightarrow> product \<Rightarrow> store \<Rightarrow> exn + product \<times> store" where
  "Product_save now p st =
     (let p1 = p\<lparr>p_updated_at := now\<rparr>;
          p2 = (if p_id p1 = 0
                then p1\<lparr>p_id := next_id (p_business p1) (products st)\<rparr>
                else p1)
      in if violates_unique p2 (products st) then Inl IntegrityError
         else Inr (p2, st\<lparr>products := write_product p2 (products st)\<rparr>))"

text \<open>\<^verbatim>\<open>Sale.save\<close>: stamps \<^verbatim>\<open>updated_at\<close>, then writes the row.\<close>

definition Sale_save :: "timestamp \<Rightarrow> sale \<Rightarrow> store \<Rightarrow> store" where
  "Sale_save now s st = st\<lparr>sales := write_sale (s\<lparr>s_updated_at := now\<rparr>) (sales st)\<rparr>"

section \<open>Queries\<close>

text \<open>\<^verbatim>\<open>item.product\<close>: the row the foreign key points to, read when the item is processed.\<close>

definition product_of :: "sale_item \<Rightarrow> store \<Rightarrow> product option" where
  "product_of item st = find (\<lambda>q. p_server_id q = si_product item) (products st)"

text \<open>\<^verbatim>\<open>sale.items.all()\<close>, in the order of \<^verbatim>\<open>ordering = ['sale', 'id']\<close>.\<close>

definition items_of :: "sale \<Rightarrow> store \<Rightarrow> sale_item list" where
  "items_of s st = filter (\<lambda>i. si_sale i = s_uuid s) (sale_items st)"

text \<open>
  \<^verbatim>\<open>Sale.objects.get(uuid=uuid, business=business, pending_approval=True, active=True)\<close>
\<close>

definition get_pending_sale :: "uuid \<Rightarrow> business_id \<Rightarrow> store \<Rightarrow> sale option" where
  "get_pending_sale u b st =
     find (\<lambda>s. s_uuid s = u \<and> s_business s = b \<and> s_pending_approval s \<and> s_active s) (sales st)"

text \<open>
  \<^verbatim>\<open>Sale.objects.filter(active=True, business=business, pending_approval=True)\<close>, in the
  order of \<^verbatim>\<open>ordering = ['-created_at']\<close>.
\<close>

definition pending_sales :: "business_id \<Rightarrow> store \<Rightarrow> sale list" where
  "pending_sales b st =
     rev (sort_key s_created_at
            (filter (\<lambda>s. s_active s \<and> s_business s = b \<and> s_pending_approval s) (sales st)))"

section \<open>Approval (posapp/views.py)\<close>

text \<open>
  The item loop of \<^verbatim>\<open>ApproveSaleView.post\<close> (and, with the same body, the inner loop of
  \<^verbatim>\<open>ApproveAllPendingView.post\<close>): each item's product is read afresh, its stock is
  compared with the quantity, and either the decremented product is saved or the view
  returns at once with status 400. The result is the early answer, if any, and the
  database as the loop left it.
\<close>

fun approve_items :: "timestamp \<Rightarrow> sale_item list \<Rightarrow> store \<Rightarrow> response option \<times> store" where
  "approve_items now [] st = (None, st)"
| "approve_items now (item # items) st =
     (case product_of item st of
        None \<Rightarrow> (Some (ServerError DoesNotExist), st)
      | Some product \<Rightarrow>
          if p_stock product \<ge> int (si_quantity item) then
            (case Product_save now (product\<lparr>p_stock := p_stock product - int (si_quantity item)\<rparr>) st of
               Inl e \<Rightarrow> (Some (ServerError e), st)
             | Inr (saved, st') \<Rightarrow> approve_items now items st')
          else (Some (InsufficientStock (p_name product)), st))"

text \<open>\<^verbatim>\<open>ApproveSaleView.post\<close>, behind \<^verbatim>\<open>permission_classes = [IsInBusiness, IsAdmin]\<close>.\<close>

definition ApproveSaleView_post :: "request \<Rightarrow> timestamp \<Rightarrow> uuid \<Rightarrow> store \<Rightarrow> response \<times> store" where
  "ApproveSaleView_post req now u st =
     (if r_role req \<noteq> Admin then (Forbidden, st)
      else case get_pending_sale u (r_business req) st of
        None \<Rightarrow> (NotFound, st)
      | Some s \<Rightarrow>
          (case approve_items now (items_of s st) st of
             (Some resp, st') \<Rightarrow> (resp, st')
           | (None, st') \<Rightarrow> (OK, Sale_save now (s\<lparr>s_pending_approval := False\<rparr>) st')))"

text \<open>
  \<^verbatim>\<open>ApproveAllPendingView.post\<close>: the first pair of nested loops decrements stock sale
  by sale and returns at the first item that lacks stock; the second loop, reached only
  when the first ran to its end, clears \<^verbatim>\<open>pending_approval\<close> on every sale of the list.
\<close>

fun approve_all_sales :: "timestamp \<Rightarrow> sale list \<Rightarrow> store \<Rightarrow> response option \<times> store" where
  "approve_all_sales now [] st = (None, st)"
| "approve_all_sales now (s # ss) st =
     (case approve_items now (items_of s st) st of
        (Some resp, st') \<Rightarrow> (Some resp, st')
      | (None, st') \<Rightarrow> approve_all_sales now ss st')"

fun clear_pending :: "timestamp \<Rightarrow> sale list \<Rightarrow> store \<Rightarrow> store" where
  "clear_pending now [] st = st"
| "clear_pending now (s # ss) st =
     clear_pending now ss (Sale_save now (s\<lparr>s_pending_approval := False\<rparr>) st)"

definition ApproveAllPendingView_post :: "request \<Rightarrow> timestamp \<Rightarrow> store \<Rightarrow> response \<times> store" where
  "ApproveAllPendingView_post req now st =
     (if r_role req \<noteq> Admin then (Forbidden, st)
      else let batch = pending_sales (r_business req) st in
        case approve_all_sales now batch st of
          (Some resp, st') \<Rightarrow> (resp, st')
        | (None, st') \<Rightarrow> (OK, clear_pending now batch st'))"

text \<open>\<^verbatim>\<open>RejectSaleView.post\<close>: soft delete of one pending sale.\<close>

definition RejectSaleView_post :: "request \<Rightarrow> timestamp \<Rightarrow> uuid \<Rightarrow> store \<Rightarrow> response \<times> store" where
  "RejectSaleView_post req now u st =
     (if r_role req \<noteq> Admin then (Forbidden, st)
      else case get_pending_sale u (r_business req) st of
        None \<Rightarrow> (NotFound, st)
      | Some s \<Rightarrow> (OK, Sale_save now (s\<lparr>s_active := False\<rparr>) st))"

text \<open>
  \<^verbatim>\<open>RejectAllPendingView.post\<close>: a queryset \<^verbatim>\<open>update(active=False)\<close>, which writes the
  column without calling \<^verbatim>\<open>Sale.save\<close>.
\<close>

definition RejectAllPendingView_post :: "request \<Rightarrow> store \<Rightarrow> response \<times> store" where
  "RejectAllPendingView_post req st =
     (if r_role req \<noteq> Admin then (Forbidden, st)
      else (OK, st\<lparr>sales :=
              map (\<lambda>s. if s_active s \<and> s_business s = r_business req \<and> s_pending_approval s
                        then s\<lparr>s_active := False\<rparr> else s) (sales st)\<rparr>))"

text \<open>\<^verbatim>\<open>SaleViewSet.reactivate\<close>.\<close>

definition SaleViewSet_reactivate :: "request \<Rightarrow> timestamp \<Rightarrow> uuid \<Rightarrow> store \<Rightarrow> response \<times> store" where
  "SaleViewSet_reactivate req now u st =
     (if r_role req \<noteq> Admin then (Forbidden, st)
      else case find (\<lambda>s. s_uuid s = u \<and> s_business s = r_business req) (sales st) of
        None \<Rightarrow> (NotFound, st)
      | Some s \<Rightarrow>
          if s_active s then (AlreadyActive, st)
          else (OK, Sale_save now (s\<lparr>s_active := True\<rparr>) st))"

text \<open>
  \<^verbatim>\<open>SaleViewSet.get_queryset\<close>, as a predicate on a sale; \<open>include_inactive\<close> is the query
  parameter of that name.
\<close>

definition in_sale_queryset :: "request \<Rightarrow> bool \<Rightarrow> sale \<Rightarrow> bool" where
  "in_sale_queryset req include_inactive s =
     (s_business s = r_business req \<and> \<not> s_pending_approval s \<and>
      (if \<not> (include_inactive \<and> r_role req = Admin) then s_active s else True) \<and>
      (if r_role req = Worker then s_created_by s = Some (r_user req) else True))"

text \<open>The loop of \<^verbatim>\<open>SaleViewSet.destroy\<close>: every item's quantity goes back to its product.\<close>

fun restore_items :: "timestamp \<Rightarrow> sale_item list \<Rightarrow> store \<Rightarrow> exn option \<times> store" where
  "restore_items now [] st = (None, st)"
| "restore_items now (item # items) st =
     (case product_of item st of
        None \<Rightarrow> (Some DoesNotExist, st)
      | Some product \<Rightarrow>
          (case Product_save now (product\<lparr>p_stock := p_stock product + int (si_quantity item)\<rparr>) st of
             Inl e \<Rightarrow> (Some e, st)
           | Inr (saved, st') \<Rightarrow> restore_items now items st'))"

definition SaleViewSet_destroy ::
  "request \<Rightarrow> timestamp \<Rightarrow> bool \<Rightarrow> uuid \<Rightarrow> store \<Rightarrow> response \<times> store" where
  "SaleViewSet_destroy req now include_inactive u st =
     (case find (\<lambda>s. s_uuid s = u \<and> in_sale_queryset req include_inactive s) (sales st) of
        None \<Rightarrow> (NotFound, st)
      | Some instance \<Rightarrow>
          (case restore_items now (items_of instance st) st of
             (Some e, st') \<Rightarrow> (ServerError e, st')
           | (None, st') \<Rightarrow> (OK, Sale_save now (instance\<lparr>s_active := False\<rparr>) st')))"

text \<open>
  \<^verbatim>\<open>ProductViewSet.destroy\<close>: soft delete of an active product of the business, found by
  its \<^verbatim>\<open>id\<close> (\<^verbatim>\<open>lookup_field = 'id'\<close>); the optional \<^verbatim>\<open>updated_after\<close> filter of the
  queryset is not modelled.
\<close>

definition ProductViewSet_destroy :: "request \<Rightarrow> timestamp \<Rightarrow> nat \<Rightarrow> store \<Rightarrow> response \<times> store" where
  "ProductViewSet_destroy req now lid st =
     (case find (\<lambda>q. p_id q = lid \<and> p_active q \<and> p_business q = r_business req) (products st) of
        None \<Rightarrow> (NotFound, st)
      | Some instance \<Rightarrow>
          (case Product_save now (instance\<lparr>p_active := False\<rparr>) st of
             Inl e \<Rightarrow> (ServerError e, st)
           | Inr (saved, st') \<Rightarrow> (OK, st')))"

section \<open>Product synchronisation (posapp/serializers.py)\<close>

text \<open>
  One validated element of \<^verbatim>\<open>ProductSyncItemSerializer\<close>; \<^verbatim>\<open>description\<close> and
  \<^verbatim>\<open>image_base64\<close> are left out with the columns they feed (the image step only saves the
  product once more, and swallows every exception).
\<close>

record product_rec =
  pr_id :: int
  pr_name :: string
  pr_qr_code :: "string option"
  pr_price :: money
  pr_stock :: int
  pr_updated_at :: timestamp
  pr_active :: bool

text \<open>\<^verbatim>\<open>DecimalField(max_digits=10, decimal_places=2)\<close>, on a number of hundredths.\<close>

definition decimal_ok :: "money \<Rightarrow> bool" where
  "decimal_ok x = (\<bar>x\<bar> < 10000000000)"

text \<open>
  \<^verbatim>\<open>ProductSyncSerializer.is_valid\<close>: \<^verbatim>\<open>validate_products\<close> refuses an empty batch,
  \<^verbatim>\<open>validate_price\<close> a price that is not positive, \<^verbatim>\<open>min_value=0\<close> a negative stock.
\<close>

definition product_rec_valid :: "product_rec \<Rightarrow> bool" where
  "product_rec_valid r =
     (length (pr_name r) \<le> 255 \<and> decimal_ok (pr_price r) \<and> pr_price r > 0 \<and> pr_stock r \<ge> 0)"

definition ProductSyncSerializer_is_valid :: "product_rec list \<Rightarrow> bool" where
  "ProductSyncSerializer_is_valid rs = (rs \<noteq> [] \<and> list_all product_rec_valid rs)"

text \<open>\<^verbatim>\<open>(qr_val or '').strip() or None\<close>, on ASCII white space.\<close>

definition is_space :: "char \<Rightarrow> bool" where
  "is_space c = (c \<in> set [CHR '' '', CHR 0x09, CHR 0x0A, CHR 0x0B, CHR 0x0C, CHR 0x0D,
                           CHR 0x1C, CHR 0x1D, CHR 0x1E, CHR 0x1F])"

definition strip :: "string \<Rightarrow> string" where
  "strip s = rev (dropWhile is_space (rev (dropWhile is_space s)))"

definition normalize_text :: "string option \<Rightarrow> string option" where
  "normalize_text v =
     (let s = strip (case v of None \<Rightarrow> [] | Some x \<Rightarrow> x)
      in if s = [] then None else Some s)"

text \<open>\<^verbatim>\<open>default=uuid.uuid4\<close>: a key no row of the table has.\<close>

definition new_server_id :: "product list \<Rightarrow> uuid" where
  "new_server_id ps = Suc (fold max (map p_server_id ps) 0)"

text \<open>
  \<^verbatim>\<open>Product.objects.update_or_create(business_id=..., local_id=..., defaults={...})\<close>. The
  query is built from the keywords \<^verbatim>\<open>business_id\<close> and \<^verbatim>\<open>local_id\<close> first, and
  \<^verbatim>\<open>local_id\<close> is no field of \<^verbatim>\<open>Product\<close>: the call raises. Past that point the row found
  would get the defaults and be saved, and without a row a new one would be built from the
  lookup and the defaults and saved, both through \<^verbatim>\<open>Product.save\<close>; that part is written
  here with the number of the push in the column \<^verbatim>\<open>id\<close>.
\<close>

definition upsert_product ::
  "request \<Rightarrow> timestamp \<Rightarrow> product_rec \<Rightarrow> store \<Rightarrow> exn + product \<times> store" where
  "upsert_product req now item st =
     (case Product_lookup [''business_id'', ''local_id''] of
        Some e \<Rightarrow> Inl e
      | None \<Rightarrow>
      let qr_final = normalize_text (pr_qr_code item) in
      case find (\<lambda>q. p_business q = r_business req \<and> int (p_id q) = pr_id item) (products st) of
        Some obj \<Rightarrow>
          Product_save now
            (obj\<lparr>p_name := pr_name item, p_qr_code := qr_final, p_price := pr_price item,
                 p_stock := pr_stock item, p_updated_at := pr_updated_at item,
                 p_active := pr_active item\<rparr>) st
      | None \<Rightarrow>
          if pr_id item < 0 then Inl IntegrityError
          else Product_save now
            \<lparr>p_server_id = new_server_id (products st), p_id = nat (pr_id item),
             p_business = r_business req, p_name = pr_name item, p_qr_code = qr_final,
             p_price = pr_price item, p_stock = pr_stock item,
             p_updated_at = pr_updated_at item, p_active = pr_active item\<rparr> st)"

text \<open>The loop of \<^verbatim>\<open>ProductSyncSerializer.create\<close>; an exception ends it.\<close>

fun sync_products ::
  "request \<Rightarrow> timestamp \<Rightarrow> product_rec list \<Rightarrow> store \<Rightarrow> exn option \<times> store" where
  "sync_products req now [] st = (None, st)"
| "sync_products req now (item # items) st =
     (case upsert_product req now item st of
        Inl e \<Rightarrow> (Some e, st)
      | Inr (product, st') \<Rightarrow> sync_products req now items st')"

text \<open>\<^verbatim>\<open>ProductSyncView.post\<close>: 400 on invalid data, 500 on an exception, 201 otherwise.\<close>

definition ProductSyncView_post ::
  "request \<Rightarrow> timestamp \<Rightarrow> product_rec list \<Rightarrow> store \<Rightarrow> response \<times> store" where
  "ProductSyncView_post req now rs st =
     (if \<not> ProductSyncSerializer_is_valid rs then (Invalid, st)
      else case sync_products req now rs st of
        (Some e, st') \<Rightarrow> (ServerError e, st')
      | (None, st') \<Rightarrow> (OK, st'))"

section \<open>Sale synchronisation (posapp/serializers.py)\<close>

text \<open>Validated elements of \<^verbatim>\<open>SaleItemCreateSerializer\<close> and \<^verbatim>\<open>SaleSyncItemSerializer\<close>.\<close>

record item_rec =
  ir_product_id :: int
  ir_quantity :: nat
  ir_total_price :: money

record sale_rec =
  sr_uuid :: uuid
  sr_total :: money
  sr_items_data :: "item_rec list"

text \<open>
  \<^verbatim>\<open>SaleItemCreateSerializer.validate_product_id\<close>:
  \<^verbatim>\<open>Product.objects.get(local_id=value, active=True, business_id=business_id)\<close> inside a
  \<^verbatim>\<open>try\<close> that catches \<^verbatim>\<open>Product.DoesNotExist\<close> only. The keyword \<^verbatim>\<open>local_id\<close> makes the
  query raise \<^verbatim>\<open>FieldError\<close>, which is not caught; past that point the value would be
  valid when an active product of the business has it.
\<close>

definition validate_product_id :: "request \<Rightarrow> int \<Rightarrow> store \<Rightarrow> exn + bool" where
  "validate_product_id req v st =
     (case Product_lookup [''local_id'', ''active'', ''business_id''] of
        Some e \<Rightarrow> Inl e
      | None \<Rightarrow>
          Inr (list_ex (\<lambda>q. int (p_id q) = v \<and> p_active q \<and> p_business q = r_business req)
                 (products st)))"

text \<open>
  The items of one sale record, validated one by one by \<^verbatim>\<open>SaleItemCreateSerializer\<close>.
  Validation errors are collected (a boolean here); any other exception leaves the
  validation at once.
\<close>

fun validate_items :: "request \<Rightarrow> store \<Rightarrow> item_rec list \<Rightarrow> exn + bool" where
  "validate_items req st [] = Inr True"
| "validate_items req st (i # rest) =
     (case validate_product_id req (ir_product_id i) st of
        Inl e \<Rightarrow> Inl e
      | Inr ok \<Rightarrow>
          (case validate_items req st rest of
             Inl e \<Rightarrow> Inl e
           | Inr oks \<Rightarrow> Inr (ok \<and> decimal_ok (ir_total_price i) \<and> oks)))"

text \<open>
  The sale records, validated one by one by \<^verbatim>\<open>SaleSyncItemSerializer\<close>: its only check of
  its own is \<^verbatim>\<open>validate_total\<close> (a positive total). It compares the total with nothing.
\<close>

fun validate_sale_recs :: "request \<Rightarrow> store \<Rightarrow> sale_rec list \<Rightarrow> exn + bool" where
  "validate_sale_recs req st [] = Inr True"
| "validate_sale_recs req st (r # rest) =
     (case validate_items req st (sr_items_data r) of
        Inl e \<Rightarrow> Inl e
      | Inr ok \<Rightarrow>
          (case validate_sale_recs req st rest of
             Inl e \<Rightarrow> Inl e
           | Inr oks \<Rightarrow> Inr (decimal_ok (sr_total r) \<and> sr_total r > 0 \<and> ok \<and> oks)))"

text \<open>
  \<^verbatim>\<open>SaleSyncSerializer.is_valid\<close>: the records, then \<^verbatim>\<open>validate_sales\<close>, which refuses an
  empty batch. An exception that is no validation error comes out of \<^verbatim>\<open>is_valid\<close>.
\<close>

definition SaleSyncSerializer_is_valid :: "request \<Rightarrow> sale_rec list \<Rightarrow> store \<Rightarrow> exn + bool" where
  "SaleSyncSerializer_is_valid req rs st =
     (case validate_sale_recs req st rs of
        Inl e \<Rightarrow> Inl e
      | Inr ok \<Rightarrow> Inr (rs \<noteq> [] \<and> ok))"

text \<open>
  \<^verbatim>\<open>SaleSerializer.validate\<close>, the check of the direct creation path: with items present,
  \<^verbatim>\<open>abs(calculated_total - total) > 0.01\<close> is refused. Both operands are decimals with two
  places and the float \<^verbatim>\<open>0.01\<close> lies just above one hundredth, so the comparison holds
  exactly when the difference is more than one hundredth.
\<close>

definition SaleSerializer_validate :: "money \<Rightarrow> money list \<Rightarrow> bool" where
  "SaleSerializer_validate sale_total item_totals =
     (if item_totals = [] then True else \<bar>sum_list item_totals - sale_total\<bar> \<le> 1)"

text \<open>
  \<^verbatim>\<open>Sale.objects.update_or_create(uuid=..., business_id=..., defaults={...})\<close>: the sale of
  the business with that uuid gets the defaults and is saved (\<open>created = False\<close>);
  without one a new row is inserted, which the primary key refuses when another business
  holds the uuid.
\<close>

definition upsert_sale ::
  "request \<Rightarrow> timestamp \<Rightarrow> sale_rec \<Rightarrow> store \<Rightarrow> exn + (sale \<times> bool) \<times> store" where
  "upsert_sale req now sale_data st =
     (let is_worker = (r_role req = Worker) in
      case find (\<lambda>s. s_uuid s = sr_uuid sale_data \<and> s_business s = r_business req) (sales st) of
        Some obj \<Rightarrow>
          (let obj' = obj\<lparr>s_total := sr_total sale_data, s_updated_at := now,
                          s_synced_from_device := True, s_active := True,
                          s_created_by := Some (r_user req), s_pending_approval := is_worker\<rparr>
           in Inr ((obj', False), Sale_save now obj' st))
      | None \<Rightarrow>
          if list_ex (\<lambda>s. s_uuid s = sr_uuid sale_data) (sales st) then Inl IntegrityError
          else
            (let obj = \<lparr>s_uuid = sr_uuid sale_data, s_business = r_business req,
                        s_total = sr_total sale_data, s_created_at = now, s_updated_at = now,
                        s_synced_from_device = True, s_active = True,
                        s_created_by = Some (r_user req), s_pending_approval = is_worker\<rparr>
             in Inr ((obj, True), Sale_save now obj st)))"

text \<open>
  \<^verbatim>\<open>SaleItem.objects.create\<close>, through \<^verbatim>\<open>SaleItem.save\<close> and \<^verbatim>\<open>full_clean\<close>: \<^verbatim>\<open>clean\<close>
  refuses a quantity or a total price that is not positive, and the uniqueness check
  refuses a second item of the same sale for the same product
  (\<^verbatim>\<open>unique_together = [['sale', 'product']]\<close>).
\<close>

definition SaleItem_create :: "sale_item \<Rightarrow> store \<Rightarrow> exn + store" where
  "SaleItem_create item st =
     (if si_quantity item \<le> 0 \<or> si_total_price item \<le> 0 \<or>
         list_ex (\<lambda>i. si_sale i = si_sale item \<and> si_product i = si_product item) (sale_items st)
      then Inl ValidationError
      else Inr (st\<lparr>sale_items := sale_items st @ [item]\<rparr>))"

text \<open>
  The first loop under \<^verbatim>\<open>if created:\<close> in \<^verbatim>\<open>SaleSyncSerializer.create\<close>. Each turn starts
  with \<^verbatim>\<open>Product.objects.get(local_id=product_id, business_id=business_id)\<close>, whose keyword
  \<^verbatim>\<open>local_id\<close> makes the query raise; past that point the line item would be created for
  the product found.
\<close>

fun create_items :: "request \<Rightarrow> sale \<Rightarrow> item_rec list \<Rightarrow> store \<Rightarrow> exn option \<times> store" where
  "create_items req s [] st = (None, st)"
| "create_items req s (item_data # rest) st =
     (case Product_lookup [''local_id'', ''business_id''] of
        Some e \<Rightarrow> (Some e, st)
      | None \<Rightarrow>
      case find (\<lambda>q. int (p_id q) = ir_product_id item_data \<and> p_business q = r_business req)
             (products st) of
        None \<Rightarrow> (Some DoesNotExist, st)
      | Some product \<Rightarrow>
          (case SaleItem_create
                  \<lparr>si_sale = s_uuid s, si_product = p_server_id product,
                   si_quantity = ir_quantity item_data,
                   si_total_price = ir_total_price item_data\<rparr> st of
             Inl e \<Rightarrow> (Some e, st)
           | Inr st' \<Rightarrow> create_items req s rest st'))"

text \<open>
  The second loop, under \<^verbatim>\<open>if not is_worker:\<close>. The test \<^verbatim>\<open>p.stock >= item.quantity\<close> has
  no \<^verbatim>\<open>else\<close>: an item whose product lacks stock is passed over and the loop goes on.
\<close>

fun decrement_items :: "timestamp \<Rightarrow> sale_item list \<Rightarrow> store \<Rightarrow> exn option \<times> store" where
  "decrement_items now [] st = (None, st)"
| "decrement_items now (item # items) st =
     (case product_of item st of
        None \<Rightarrow> (Some DoesNotExist, st)
      | Some p \<Rightarrow>
          if p_stock p \<ge> int (si_quantity item) then
            (case Product_save now (p\<lparr>p_stock := p_stock p - int (si_quantity item)\<rparr>) st of
               Inl e \<Rightarrow> (Some e, st)
             | Inr (saved, st') \<Rightarrow> decrement_items now items st')
          else decrement_items now items st)"

text \<open>The body of the loop over \<^verbatim>\<open>sales_data\<close> in \<^verbatim>\<open>SaleSyncSerializer.create\<close>.\<close>

definition sync_sale_record ::
  "request \<Rightarrow> timestamp \<Rightarrow> sale_rec \<Rightarrow> store \<Rightarrow> exn option \<times> store" where
  "sync_sale_record req now sale_data st =
     (case upsert_sale req now sale_data st of
        Inl e \<Rightarrow> (Some e, st)
      | Inr ((s, created), st1) \<Rightarrow>
          if created then
            (case create_items req s (sr_items_data sale_data) st1 of
               (Some e, st2) \<Rightarrow> (Some e, st2)
             | (None, st2) \<Rightarrow>
                 if r_role req \<noteq> Worker then decrement_items now (items_of s st2) st2
                 else (None, st2))
          else (None, st1))"

fun sync_sales :: "request \<Rightarrow> timestamp \<Rightarrow> sale_rec list \<Rightarrow> store \<Rightarrow> exn option \<times> store" where
  "sync_sales req now [] st = (None, st)"
| "sync_sales req now (sale_data # rest) st =
     (case sync_sale_record req now sale_data st of
        (Some e, st') \<Rightarrow> (Some e, st')
      | (None, st') \<Rightarrow> sync_sales req now rest st')"

text \<open>
  \<^verbatim>\<open>SaleSyncView.post\<close>: \<^verbatim>\<open>is_valid\<close> is called outside the \<^verbatim>\<open>try\<close>, so an exception
  of the validation ends the request unhandled (status 500, nothing written); then 400 on
  invalid data, 500 on an exception of \<^verbatim>\<open>save\<close>, 201 otherwise.
\<close>

definition SaleSyncView_post ::
  "request \<Rightarrow> timestamp \<Rightarrow> sale_rec list \<Rightarrow> store \<Rightarrow> response \<times> store" where
  "SaleSyncView_post req now rs st =
     (case SaleSyncSerializer_is_valid req rs st of
        Inl e \<Rightarrow> (ServerError e, st)
      | Inr valid \<Rightarrow>
          if \<not> valid then (Invalid, st)
          else case sync_sales req now rs st of
            (Some e, st') \<Rightarrow> (ServerError e, st')
          | (None, st') \<Rightarrow> (OK, st'))"

section \<open>Sequences of operations\<close>

text \<open>The operations of the core, each with the request and the server time it runs at.\<close>

datatype operation =
    ProductSync request timestamp "product_rec list"
  | SaleSync request timestamp "sale_rec list"
  | Approve request timestamp uuid
  | ApproveAll request timestamp
  | Reject request timestamp uuid
  | RejectAll request
  | Reactivate request timestamp uuid
  | DestroySale request timestamp bool uuid
  | DestroyProduct request timestamp nat

fun perform :: "operation \<Rightarrow> store \<Rightarrow> response \<times> store" where
  "perform (ProductSync req now rs) st = ProductSyncView_post req now rs st"
| "perform (SaleSync req now rs) st = SaleSyncView_post req now rs st"
| "perform (Approve req now u) st = ApproveSaleView_post req now u st"
| "perform (ApproveAll req now) st = ApproveAllPendingView_post req now st"
| "perform (Reject req now u) st = RejectSaleView_post req now u st"
| "perform (RejectAll req) st = RejectAllPendingView_post req st"
| "perform (Reactivate req now u) st = SaleViewSet_reactivate req now u st"
| "perform (DestroySale req now inc u) st = SaleViewSet_destroy req now inc u st"
| "perform (DestroyProduct req now lid) st = ProductViewSet_destroy req now lid st"

text \<open>The database after each operation of a sequence, whatever the operation answered.\<close>

fun run :: "operation list \<Rightarrow> store \<Rightarrow> store" where
  "run [] st = st"
| "run (op # ops) st = run ops (snd (perform op st))"

definition stock_nonneg :: "store \<Rightarrow> bool" where
  "stock_nonneg st = list_all (\<lambda>p. 0 \<le> p_stock p) (products st)"

section \<open>Observations and example data\<close>

text \<open>The stock of the product with a given server id, if the table has it.\<close>

definition stock_of :: "uuid \<Rightarrow> store \<Rightarrow> int option" where
  "stock_of k st = map_option p_stock (find (\<lambda>q. p_server_id q = k) (products st))"

text \<open>The quantity a list of items asks of the product with a given server id.\<close>

definition sold :: "uuid \<Rightarrow> sale_item list \<Rightarrow> int" where
  "sold k items = sum_list (map (\<lambda>i. int (si_quantity i)) (filter (\<lambda>i. si_product i = k) items))"

text \<open>
  A business with two products, five of A and one of B in stock, and a pending sale of a
  worker asking for two of A and three of B.
\<close>

definition ex_product_a :: product where
  "ex_product_a = \<lparr>p_server_id = 1, p_id = 1, p_business = 1, p_name = ''A'',
     p_qr_code = None, p_price = 2500, p_stock = 5, p_updated_at = 0, p_active = True\<rparr>"

definition ex_product_b :: product where
  "ex_product_b = \<lparr>p_server_id = 2, p_id = 2, p_business = 1, p_name = ''B'',
     p_qr_code = None, p_price = 2500, p_stock = 1, p_updated_at = 0, p_active = True\<rparr>"

definition ex_sale :: sale where
  "ex_sale = \<lparr>s_uuid = 10, s_business = 1, s_total = 12500, s_created_at = 3, s_updated_at = 3,
     s_synced_from_device = True, s_active = True, s_created_by = Some 2,
     s_pending_approval = True\<rparr>"

definition ex_store :: store where
  "ex_store = \<lparr>products = [ex_product_a, ex_product_b], sales = [ex_sale],
     sale_items = [\<lparr>si_sale = 10, si_product = 1, si_quantity = 2, si_total_price = 5000\<rparr>,
                   \<lparr>si_sale = 10, si_product = 2, si_quantity = 3, si_total_price = 7500\<rparr>]\<rparr>"

definition ex_admin :: request where
  "ex_admin = \<lparr>r_user = 1, r_business = 1, r_role = Admin\<rparr>"

definition ex_worker :: request where
  "ex_worker = \<lparr>r_user = 2, r_business = 1, r_role = Worker\<rparr>"

text \<open>The example database with two of A taken out at time 7.\<close>

definition ex_store_partial :: store where
  "ex_store_partial =
     ex_store\<lparr>products := [ex_product_a\<lparr>p_stock := 3, p_updated_at := 7\<rparr>, ex_product_b]\<rparr>"

text \<open>
  A day of the example business: the admin pushes a sale of four of A, tries to approve
  the worker's sale, asks to delete the pushed sale, the worker pushes new figures for A,
  and the admin tries to approve what is pending, then rejects and reactivates the worker's
  sale.
\<close>

definition ex_operations :: "operation list" where
  "ex_operations =
     [SaleSync ex_admin 5
        [\<lparr>sr_uuid = 11, sr_total = 10000,
          sr_items_data = [\<lparr>ir_product_id = 1, ir_quantity = 4, ir_total_price = 10000\<rparr>]\<rparr>],
      Approve ex_admin 6 10,
      DestroySale ex_admin 7 False 11,
      ProductSync ex_worker 8
        [\<lparr>pr_id = 1, pr_name = ''A'', pr_qr_code = None, pr_price = 2500, pr_stock = 0,
          pr_updated_at = 4, pr_active = True\<rparr>],
      ApproveAll ex_admin 9,
      Reject ex_admin 10 10,
      Reactivate ex_admin 11 10]"

text \<open>The same sale record pushed again and again, each time by some actor at some time.\<close>

definition replay :: "(request \<times> timestamp) list \<Rightarrow> sale_rec \<Rightarrow> store \<Rightarrow> store" where
  "replay pushes r st = fold (\<lambda>(req, now) st'. snd (sync_sale_record req now r st')) pushes st"

text \<open>The example database after the admin approved the sale, and after the admin rejected it.\<close>

definition ex_store_approved :: store where
  "ex_store_approved = ex_store\<lparr>sales := [ex_sale\<lparr>s_pending_approval := False\<rparr>]\<rparr>"

definition ex_store_rejected :: store where
  "ex_store_rejected = ex_store\<lparr>sales := [ex_sale\<lparr>s_active := False\<rparr>]\<rparr>"

text \<open>The worker's device pushing the example sale once more.\<close>

definition ex_sale_push :: sale_rec where
  "ex_sale_push = \<lparr>sr_uuid = 10, sr_total = 12500,
     sr_items_data = [\<lparr>ir_product_id = 1, ir_quantity = 2, ir_total_price = 5000\<rparr>,
                      \<lparr>ir_product_id = 2, ir_quantity = 3, ir_total_price = 7500\<rparr>]\<rparr>"

text \<open>A push of product A whose device timestamp is 4.\<close>

definition ex_product_push :: product_rec where
  "ex_product_push = \<lparr>pr_id = 1, pr_name = ''A'', pr_qr_code = None, pr_price = 2500,
     pr_stock = 5, pr_updated_at = 4, pr_active = True\<rparr>"

text \<open>A new sale with total 100.00 whose only item has total price 99.50.\<close>

definition ex_mismatch_push :: sale_rec where
  "ex_mismatch_push = \<lparr>sr_uuid = 12, sr_total = 10000,
     sr_items_data = [\<lparr>ir_product_id = 1, ir_quantity = 2, ir_total_price = 9950\<rparr>]\<rparr>"

text \<open>A new sale asking for three of B, of which one is in stock.\<close>

definition ex_short_push :: sale_rec where
  "ex_short_push = \<lparr>sr_uuid = 13, sr_total = 7500,
     sr_items_data = [\<lparr>ir_product_id = 2, ir_quantity = 3, ir_total_price = 7500\<rparr>]\<rparr>"

text \<open>A new sale of two of A for 50.00.\<close>

definition ex_new_push :: sale_rec where
  "ex_new_push = \<lparr>sr_uuid = 11, sr_total = 5000,
     sr_items_data = [\<lparr>ir_product_id = 1, ir_quantity = 2, ir_total_price = 5000\<rparr>]\<rparr>"

text \<open>A new sale with total 100.00 and no item at all.\<close>

definition ex_bare_push :: sale_rec where
  "ex_bare_push = \<lparr>sr_uuid = 14, sr_total = 10000, sr_items_data = []\<rparr>"

section \<open>Properties\<close>

subsection \<open>Saving a product\<close>

lemma find_map_replace:
  "find (\<lambda>q. p_server_id q = k) (map (\<lambda>q. if p_server_id q = p_server_id p then p else q) ps) =
     (if k = p_server_id p
      then (if list_ex (\<lambda>q. p_server_id q = p_server_id p) ps then Some p else None)
      else find (\<lambda>q. p_server_id q = k) ps)"
  by (induction ps) auto

lemma find_append_row:
  "find (\<lambda>q. p_server_id q = k) (ps @ [p]) =
     (case find (\<lambda>q. p_server_id q = k) ps of
        Some q \<Rightarrow> Some q
      | None \<Rightarrow> if k = p_server_id p then Some p else None)"
  by (induction ps) auto

lemma find_absent:
  "\<not> list_ex (\<lambda>q. p_server_id q = k) ps \<Longrightarrow> find (\<lambda>q. p_server_id q = k) ps = None"
  by (induction ps) auto

lemma find_write_product:
  "find (\<lambda>q. p_server_id q = k) (write_product p ps) =
     (if k = p_server_id p then Some p else find (\<lambda>q. p_server_id q = k) ps)"
proof (cases "list_ex (\<lambda>q. p_server_id q = p_server_id p) ps")
  case True
  then show ?thesis by (simp add: write_product_def find_map_replace)
next
  case False
  from find_absent[OF False] show ?thesis
    using False by (simp add: write_product_def find_append_row split: option.splits)
qed

lemma Product_save_frame:
  assumes "Product_save now p st = Inr (p2, st')"
  shows "sales st' = sales st" and "sale_items st' = sale_items st"
    and "p_server_id p2 = p_server_id p" and "p_stock p2 = p_stock p"
    and "products st' = write_product p2 (products st)"
  using assms by (auto simp: Product_save_def Let_def split: if_splits)

lemma Product_save_stock_of:
  assumes "Product_save now p st = Inr (p2, st')"
  shows "stock_of k st' = (if k = p_server_id p then Some (p_stock p) else stock_of k st)"
  using Product_save_frame[OF assms] by (simp add: stock_of_def find_write_product)

subsection \<open>Approving one sale\<close>

lemma approve_items_frame:
  "approve_items now items st = (r, st') \<Longrightarrow> sales st' = sales st \<and> sale_items st' = sale_items st"
proof (induction items arbitrary: st)
  case Nil
  then show ?case by simp
next
  case (Cons item items)
  then show ?case
    by (auto split: option.splits if_splits sum.splits dest: Product_save_frame)
qed

lemma approve_items_success_stock:
  "approve_items now items st = (None, st') \<Longrightarrow>
     stock_of k st' = map_option (\<lambda>x. x - sold k items) (stock_of k st)"
proof (induction items arbitrary: st)
  case Nil
  then show ?case by (simp add: sold_def option.map_ident)
next
  case (Cons item items)
  from Cons.prems obtain product saved st1 where
    p: "product_of item st = Some product" and
    sv: "Product_save now (product\<lparr>p_stock := p_stock product - int (si_quantity item)\<rparr>) st = Inr (saved, st1)" and
    rest: "approve_items now items st1 = (None, st')"
    by (auto split: option.splits if_splits sum.splits)
  from p have sid: "p_server_id product = si_product item" and so: "stock_of (si_product item) st = Some (p_stock product)"
    by (auto simp: product_of_def stock_of_def dest: find_Some_iff[THEN iffD1])
  have "stock_of k st1 = (if k = si_product item then Some (p_stock product - int (si_quantity item)) else stock_of k st)"
    using Product_save_stock_of[OF sv, of k] sid by simp
  with Cons.IH[OF rest] so show ?case
    by (cases "stock_of k st") (auto simp: sold_def)
qed

lemma approve_items_failure_prefix:
  "approve_items now items st = (Some (InsufficientStock nm), st') \<Longrightarrow>
     \<exists>pre item post p. items = pre @ item # post \<and> approve_items now pre st = (None, st') \<and>
        product_of item st' = Some p \<and> p_name p = nm \<and> p_stock p < int (si_quantity item)"
proof (induction items arbitrary: st)
  case Nil
  then show ?case by simp
next
  case (Cons item items)
  show ?case
  proof (cases "product_of item st")
    case None
    with Cons.prems show ?thesis by simp
  next
    case (Some product)
    show ?thesis
    proof (cases "p_stock product \<ge> int (si_quantity item)")
      case False
      with Some Cons.prems have "st' = st" "p_name product = nm" by auto
      with Some False have "item # items = [] @ item # items \<and> approve_items now [] st = (None, st') \<and>
        product_of item st' = Some product \<and> p_name product = nm \<and> p_stock product < int (si_quantity item)"
        by simp
      then show ?thesis by blast
    next
      case True
      with Some Cons.prems obtain saved st1 where
        sv: "Product_save now (product\<lparr>p_stock := p_stock product - int (si_quantity item)\<rparr>) st = Inr (saved, st1)" and
        rest: "approve_items now items st1 = (Some (InsufficientStock nm), st')"
        by (auto split: sum.splits)
      from Cons.IH[OF rest] obtain pre it post p where
        h: "items = pre @ it # post" "approve_items now pre st1 = (None, st')"
           "product_of it st' = Some p" "p_name p = nm" "p_stock p < int (si_quantity it)"
        by blast
      have "approve_items now (item # pre) st = (None, st')"
        using Some True sv h(2) by simp
      with h have "item # items = (item # pre) @ it # post \<and> approve_items now (item # pre) st = (None, st') \<and>
        product_of it st' = Some p \<and> p_name p = nm \<and> p_stock p < int (si_quantity it)"
        by simp
      then show ?thesis by blast
    qed
  qed
qed

text \<open>
  C1, as the code has it. When \<^verbatim>\<open>ApproveSaleView.post\<close> answers that a product lacks
  stock, the sale is still pending and no sale or line item has changed, the item that
  failed has a product whose stock is below its quantity, and nothing is rolled back: the
  stock of every product is its stock before the call minus what the items before the
  failing one ask of it.
\<close>

theorem approve_failure_keeps_prefix:
  assumes "ApproveSaleView_post req now u st = (InsufficientStock nm, st')"
  shows "\<exists>s pre item post p.
           get_pending_sale u (r_business req) st = Some s \<and>
           items_of s st = pre @ item # post \<and>
           sales st' = sales st \<and> sale_items st' = sale_items st \<and>
           (\<forall>k. stock_of k st' = map_option (\<lambda>x. x - sold k pre) (stock_of k st)) \<and>
           product_of item st' = Some p \<and> p_name p = nm \<and> p_stock p < int (si_quantity item)"
proof -
  from assms obtain s where
    s: "get_pending_sale u (r_business req) st = Some s" and
    run: "approve_items now (items_of s st) st = (Some (InsufficientStock nm), st')"
    by (auto simp: ApproveSaleView_post_def split: if_splits option.splits prod.splits)
  from approve_items_failure_prefix[OF run] obtain pre item post p where
    h: "items_of s st = pre @ item # post" "approve_items now pre st = (None, st')"
       "product_of item st' = Some p" "p_name p = nm" "p_stock p < int (si_quantity item)"
    by blast
  from approve_items_frame[OF run] have fr: "sales st' = sales st" "sale_items st' = sale_items st"
    by simp_all
  from approve_items_success_stock[OF h(2)]
  have "\<forall>k. stock_of k st' = map_option (\<lambda>x. x - sold k pre) (stock_of k st)" by blast
  with s h fr show ?thesis by blast
qed

theorem approve_failure_keeps_prefix_witness:
  "ApproveSaleView_post ex_admin 7 10 ex_store = (InsufficientStock ''B'', ex_store_partial) \<and>
   (\<exists>s pre item post p.
      get_pending_sale 10 (r_business ex_admin) ex_store = Some s \<and>
      items_of s ex_store = pre @ item # post \<and>
      sales ex_store_partial = sales ex_store \<and> sale_items ex_store_partial = sale_items ex_store \<and>
      (\<forall>k. stock_of k ex_store_partial = map_option (\<lambda>x. x - sold k pre) (stock_of k ex_store)) \<and>
      product_of item ex_store_partial = Some p \<and> p_name p = ''B'' \<and>
      p_stock p < int (si_quantity item))"
proof -
  have h: "ApproveSaleView_post ex_admin 7 10 ex_store = (InsufficientStock ''B'', ex_store_partial)"
    by code_simp
  from approve_failure_keeps_prefix[OF h] h show ?thesis by blast
qed

text \<open>
  C1 as stated fails: the example sale is pending and active and has two items; approving
  it fails on the second item, and the stock of the first item's product has gone from 5
  to 3.
\<close>

theorem approve_rollback_counterexample:
  "get_pending_sale 10 1 ex_store = Some ex_sale \<and>
   length (items_of ex_sale ex_store) = 2 \<and>
   fst (ApproveSaleView_post ex_admin 7 10 ex_store) = InsufficientStock ''B'' \<and>
   stock_of 1 ex_store = Some 5 \<and>
   stock_of 1 (snd (ApproveSaleView_post ex_admin 7 10 ex_store)) = Some 3"
  by code_simp

subsection \<open>Approving every pending sale\<close>

lemma approve_items_append:
  "approve_items now (xs @ ys) st =
     (case approve_items now xs st of
        (Some r, st1) \<Rightarrow> (Some r, st1)
      | (None, st1) \<Rightarrow> approve_items now ys st1)"
  by (induction xs arbitrary: st) (auto split: option.splits sum.splits prod.splits)

lemma items_of_cong: "sale_items st1 = sale_items st \<Longrightarrow> items_of s st1 = items_of s st"
  by (simp add: items_of_def)

lemma approve_all_sales_flat:
  "approve_all_sales now ss st = approve_items now (concat (map (\<lambda>s. items_of s st) ss)) st"
proof (induction ss arbitrary: st)
  case Nil
  then show ?case by simp
next
  case (Cons s ss)
  show ?case
  proof (cases "approve_items now (items_of s st) st")
    case (Pair r st1)
    from approve_items_frame[OF Pair] have "sale_items st1 = sale_items st" by simp
    then have "(\<lambda>t. items_of t st1) = (\<lambda>t. items_of t st)"
      by (simp add: items_of_def fun_eq_iff)
    with Pair Cons.IH[of st1] show ?thesis
      by (cases r) (simp_all add: approve_items_append)
  qed
qed

text \<open>
  C4, as the code has it. When \<^verbatim>\<open>ApproveAllPendingView.post\<close> answers that a product
  lacks stock (the answer names it), no sale has changed, so every sale of the batch is
  still pending, and no line item has changed; but nothing is rolled back: the stock of
  every product is its stock before the call minus what the items processed before the
  failing one ask of it, over all sales of the batch in the order of the loops.
\<close>

theorem approve_all_failure_keeps_prefix:
  assumes "ApproveAllPendingView_post req now st = (InsufficientStock nm, st')"
  shows "\<exists>pre item post p.
           concat (map (\<lambda>s. items_of s st) (pending_sales (r_business req) st)) = pre @ item # post \<and>
           sales st' = sales st \<and> sale_items st' = sale_items st \<and>
           (\<forall>k. stock_of k st' = map_option (\<lambda>x. x - sold k pre) (stock_of k st)) \<and>
           product_of item st' = Some p \<and> p_name p = nm \<and> p_stock p < int (si_quantity item)"
proof -
  let ?batch = "pending_sales (r_business req) st"
  from assms have "approve_all_sales now ?batch st = (Some (InsufficientStock nm), st')"
    by (auto simp: ApproveAllPendingView_post_def Let_def split: if_splits option.splits prod.splits)
  then have run: "approve_items now (concat (map (\<lambda>s. items_of s st) ?batch)) st =
      (Some (InsufficientStock nm), st')"
    by (simp add: approve_all_sales_flat)
  from approve_items_failure_prefix[OF run] obtain pre item post p where
    h: "concat (map (\<lambda>s. items_of s st) ?batch) = pre @ item # post"
       "approve_items now pre st = (None, st')"
       "product_of item st' = Some p" "p_name p = nm" "p_stock p < int (si_quantity item)"
    by blast
  from approve_items_frame[OF run] have fr: "sales st' = sales st" "sale_items st' = sale_items st"
    by simp_all
  from approve_items_success_stock[OF h(2)]
  have "\<forall>k. stock_of k st' = map_option (\<lambda>x. x - sold k pre) (stock_of k st)" by blast
  with h fr show ?thesis by blast
qed

theorem approve_all_failure_keeps_prefix_witness:
  "ApproveAllPendingView_post ex_admin 7 ex_store = (InsufficientStock ''B'', ex_store_partial) \<and>
   (\<exists>pre item post p.
      concat (map (\<lambda>s. items_of s ex_store) (pending_sales (r_business ex_admin) ex_store)) =
        pre @ item # post \<and>
      sales ex_store_partial = sales ex_store \<and> sale_items ex_store_partial = sale_items ex_store \<and>
      (\<forall>k. stock_of k ex_store_partial = map_option (\<lambda>x. x - sold k pre) (stock_of k ex_store)) \<and>
      product_of item ex_store_partial = Some p \<and> p_name p = ''B'' \<and>
      p_stock p < int (si_quantity item))"
proof -
  have h: "ApproveAllPendingView_post ex_admin 7 ex_store = (InsufficientStock ''B'', ex_store_partial)"
    by code_simp
  from approve_all_failure_keeps_prefix[OF h] h show ?thesis by blast
qed

text \<open>
  C4 as stated fails: the batch of the example is its one pending sale; approving all
  fails on that sale's second item, and the stock of the first item's product has gone
  from 5 to 3.
\<close>

theorem approve_all_rollback_counterexample:
  "pending_sales 1 ex_store = [ex_sale] \<and>
   fst (ApproveAllPendingView_post ex_admin 7 ex_store) = InsufficientStock ''B'' \<and>
   stock_of 1 ex_store = Some 5 \<and>
   stock_of 1 (snd (ApproveAllPendingView_post ex_admin 7 ex_store)) = Some 3"
  by code_simp

subsection \<open>Stock never goes below zero\<close>

lemma write_product_all:
  "list_all P ps \<Longrightarrow> P p \<Longrightarrow> list_all P (write_product p ps)"
  by (auto simp: write_product_def list_all_iff)

lemma Product_save_nonneg:
  assumes "Product_save now p st = Inr (p2, st')" and "stock_nonneg st" and "0 \<le> p_stock p"
  shows "stock_nonneg st'"
  using assms Product_save_frame(4,5)[OF assms(1)]
  by (simp add: stock_nonneg_def write_product_all)

lemma product_of_nonneg:
  "product_of item st = Some p \<Longrightarrow> stock_nonneg st \<Longrightarrow> 0 \<le> p_stock p"
  by (auto simp: product_of_def stock_nonneg_def list_all_iff find_Some_iff)

lemma Sale_save_products: "products (Sale_save now s st) = products st"
  by (simp add: Sale_save_def)

lemma approve_items_nonneg:
  "stock_nonneg st \<Longrightarrow> stock_nonneg (snd (approve_items now items st))"
proof (induction items arbitrary: st)
  case Nil
  then show ?case by simp
next
  case (Cons item items)
  show ?case
  proof (cases "product_of item st")
    case None
    with Cons.prems show ?thesis by simp
  next
    case (Some p)
    show ?thesis
    proof (cases "Product_save now (p\<lparr>p_stock := p_stock p - int (si_quantity item)\<rparr>) st")
      case (Inl e)
      with Some Cons.prems show ?thesis by simp
    next
      case (Inr r)
      obtain saved st1 where r: "r = (saved, st1)" by (cases r)
      show ?thesis
      proof (cases "p_stock p \<ge> int (si_quantity item)")
        case True
        with Product_save_nonneg[OF Inr[unfolded r] Cons.prems] have "stock_nonneg st1" by simp
        from Cons.IH[OF this] Some Inr r True show ?thesis by simp
      next
        case False
        with Some Cons.prems show ?thesis by simp
      qed
    qed
  qed
qed

lemma decrement_items_nonneg:
  "stock_nonneg st \<Longrightarrow> stock_nonneg (snd (decrement_items now items st))"
proof (induction items arbitrary: st)
  case Nil
  then show ?case by simp
next
  case (Cons item items)
  show ?case
  proof (cases "product_of item st")
    case None
    with Cons.prems show ?thesis by simp
  next
    case (Some p)
    show ?thesis
    proof (cases "p_stock p \<ge> int (si_quantity item)")
      case False
      with Some Cons.IH[OF Cons.prems] show ?thesis by simp
    next
      case True
      show ?thesis
      proof (cases "Product_save now (p\<lparr>p_stock := p_stock p - int (si_quantity item)\<rparr>) st")
        case (Inl e)
        with Some True Cons.prems show ?thesis by simp
      next
        case (Inr r)
        obtain saved st1 where r: "r = (saved, st1)" by (cases r)
        from Product_save_nonneg[OF Inr[unfolded r] Cons.prems] True have "stock_nonneg st1" by simp
        from Cons.IH[OF this] Some Inr r True show ?thesis by simp
      qed
    qed
  qed
qed

lemma restore_items_nonneg:
  "stock_nonneg st \<Longrightarrow> stock_nonneg (snd (restore_items now items st))"
proof (induction items arbitrary: st)
  case Nil
  then show ?case by simp
next
  case (Cons item items)
  show ?case
  proof (cases "product_of item st")
    case None
    with Cons.prems show ?thesis by simp
  next
    case (Some p)
    show ?thesis
    proof (cases "Product_save now (p\<lparr>p_stock := p_stock p + int (si_quantity item)\<rparr>) st")
      case (Inl e)
      with Some Cons.prems show ?thesis by simp
    next
      case (Inr r)
      obtain saved st1 where r: "r = (saved, st1)" by (cases r)
      from product_of_nonneg[OF Some Cons.prems]
        Product_save_nonneg[OF Inr[unfolded r] Cons.prems] have "stock_nonneg st1" by simp
      from Cons.IH[OF this] Some Inr r show ?thesis by simp
    qed
  qed
qed

lemma approve_all_sales_nonneg:
  "stock_nonneg st \<Longrightarrow> stock_nonneg (snd (approve_all_sales now ss st))"
proof (induction ss arbitrary: st)
  case Nil
  then show ?case by simp
next
  case (Cons s ss)
  from approve_items_nonneg[OF Cons.prems, of now "items_of s st"] Cons.IH
  show ?case by (auto split: prod.splits option.splits)
qed

lemma clear_pending_products: "products (clear_pending now ss st) = products st"
  by (induction ss arbitrary: st) (simp_all add: Sale_save_products)

lemma upsert_product_nonneg:
  assumes "upsert_product req now item st = Inr (p, st')" and "stock_nonneg st" and "0 \<le> pr_stock item"
  shows "stock_nonneg st'"
proof -
  from assms(1) obtain q where sv: "Product_save now q st = Inr (p, st')" and q: "p_stock q = pr_stock item"
    by (auto simp: upsert_product_def Let_def split: option.splits if_splits)
  from Product_save_nonneg[OF sv assms(2)] q assms(3) show ?thesis by simp
qed

lemma sync_products_nonneg:
  "stock_nonneg st \<Longrightarrow> list_all product_rec_valid rs \<Longrightarrow>
     stock_nonneg (snd (sync_products req now rs st))"
proof (induction rs arbitrary: st)
  case Nil
  then show ?case by simp
next
  case (Cons item items)
  show ?case
  proof (cases "upsert_product req now item st")
    case (Inl e)
    with Cons.prems show ?thesis by simp
  next
    case (Inr r)
    obtain p st1 where r: "r = (p, st1)" by (cases r)
    from Cons.prems have "0 \<le> pr_stock item" by (simp add: product_rec_valid_def)
    from upsert_product_nonneg[OF Inr[unfolded r] Cons.prems(1) this] have "stock_nonneg st1" .
    from Cons.IH[OF this] Cons.prems(2) Inr r show ?thesis by simp
  qed
qed

lemma upsert_sale_products:
  "upsert_sale req now r st = Inr (x, st') \<Longrightarrow> products st' = products st"
  by (auto simp: upsert_sale_def Let_def Sale_save_products split: option.splits if_splits)

lemma SaleItem_create_frame:
  "SaleItem_create item st = Inr st' \<Longrightarrow> products st' = products st \<and> sales st' = sales st"
  by (auto simp: SaleItem_create_def split: if_splits)

lemma create_items_frame:
  "create_items req s items st = (r, st') \<Longrightarrow> products st' = products st \<and> sales st' = sales st"
proof (induction items arbitrary: st)
  case Nil
  then show ?case by simp
next
  case (Cons i items)
  then show ?case
    by (auto split: option.splits sum.splits dest: SaleItem_create_frame)
qed

lemma sync_sale_record_nonneg:
  assumes "stock_nonneg st"
  shows "stock_nonneg (snd (sync_sale_record req now r st))"
proof (cases "upsert_sale req now r st")
  case (Inl e)
  with assms show ?thesis by (simp add: sync_sale_record_def)
next
  case (Inr x)
  obtain s created st1 where x: "x = ((s, created), st1)" by (cases x) auto
  from upsert_sale_products[OF Inr[unfolded x]] assms have n1: "stock_nonneg st1"
    by (simp add: stock_nonneg_def)
  show ?thesis
  proof (cases created)
    case False
    with Inr x n1 show ?thesis by (simp add: sync_sale_record_def)
  next
    case True
    obtain e st2 where c: "create_items req s (sr_items_data r) st1 = (e, st2)"
      by (cases "create_items req s (sr_items_data r) st1")
    from create_items_frame[OF c] n1 have n2: "stock_nonneg st2"
      by (simp add: stock_nonneg_def)
    show ?thesis
    proof (cases e)
      case (Some err)
      with Inr x True c n2 show ?thesis by (simp add: sync_sale_record_def)
    next
      case None
      show ?thesis
      proof (cases "r_role req = Worker")
        case True
        with Inr x \<open>created\<close> c None n2 show ?thesis by (simp add: sync_sale_record_def)
      next
        case False
        have "snd (sync_sale_record req now r st) = snd (decrement_items now (items_of s st2) st2)"
          using Inr x \<open>created\<close> c None False by (simp add: sync_sale_record_def)
        with decrement_items_nonneg[OF n2] show ?thesis by simp
      qed
    qed
  qed
qed

lemma sync_sales_nonneg:
  "stock_nonneg st \<Longrightarrow> stock_nonneg (snd (sync_sales req now rs st))"
proof (induction rs arbitrary: st)
  case Nil
  then show ?case by simp
next
  case (Cons r rs)
  obtain e st1 where h: "sync_sale_record req now r st = (e, st1)"
    by (cases "sync_sale_record req now r st")
  from sync_sale_record_nonneg[OF Cons.prems, of req now r] h have n1: "stock_nonneg st1"
    by simp
  show ?case
  proof (cases e)
    case None
    with h Cons.IH[OF n1] show ?thesis by simp
  next
    case (Some err)
    with h n1 show ?thesis by simp
  qed
qed

lemma ApproveSaleView_post_nonneg:
  assumes "stock_nonneg st"
  shows "stock_nonneg (snd (ApproveSaleView_post req now u st))"
proof (cases "get_pending_sale u (r_business req) st")
  case None
  with assms show ?thesis by (simp add: ApproveSaleView_post_def)
next
  case (Some s)
  obtain r st1 where h: "approve_items now (items_of s st) st = (r, st1)"
    by (cases "approve_items now (items_of s st) st")
  from approve_items_nonneg[OF assms, of now "items_of s st"] h have "stock_nonneg st1" by simp
  with Some h assms show ?thesis
    by (cases r) (simp_all add: ApproveSaleView_post_def stock_nonneg_def Sale_save_products)
qed

lemma ApproveAllPendingView_post_nonneg:
  assumes "stock_nonneg st"
  shows "stock_nonneg (snd (ApproveAllPendingView_post req now st))"
proof -
  obtain r st1 where h: "approve_all_sales now (pending_sales (r_business req) st) st = (r, st1)"
    by (cases "approve_all_sales now (pending_sales (r_business req) st) st")
  from approve_all_sales_nonneg[OF assms, of now "pending_sales (r_business req) st"] h
  have "stock_nonneg st1" by simp
  with h assms show ?thesis
    by (cases r)
       (simp_all add: ApproveAllPendingView_post_def Let_def stock_nonneg_def clear_pending_products)
qed

lemma SaleViewSet_destroy_nonneg:
  assumes "stock_nonneg st"
  shows "stock_nonneg (snd (SaleViewSet_destroy req now inc u st))"
proof (cases "find (\<lambda>s. s_uuid s = u \<and> in_sale_queryset req inc s) (sales st)")
  case None
  with assms show ?thesis by (simp add: SaleViewSet_destroy_def)
next
  case (Some s)
  obtain r st1 where h: "restore_items now (items_of s st) st = (r, st1)"
    by (cases "restore_items now (items_of s st) st")
  from restore_items_nonneg[OF assms, of now "items_of s st"] h have "stock_nonneg st1" by simp
  with Some h show ?thesis
    by (cases r) (simp_all add: SaleViewSet_destroy_def stock_nonneg_def Sale_save_products)
qed

lemma ProductViewSet_destroy_nonneg:
  assumes "stock_nonneg st"
  shows "stock_nonneg (snd (ProductViewSet_destroy req now lid st))"
proof (cases "find (\<lambda>q. p_id q = lid \<and> p_active q \<and> p_business q = r_business req) (products st)")
  case None
  with assms show ?thesis by (simp add: ProductViewSet_destroy_def)
next
  case (Some inst)
  then have "0 \<le> p_stock inst"
    using assms by (auto simp: stock_nonneg_def list_all_iff find_Some_iff)
  then have n: "0 \<le> p_stock (inst\<lparr>p_active := False\<rparr>)" by simp
  show ?thesis
  proof (cases "Product_save now (inst\<lparr>p_active := False\<rparr>) st")
    case (Inl e)
    with Some assms show ?thesis by (simp add: ProductViewSet_destroy_def)
  next
    case (Inr r)
    obtain saved st1 where r: "r = (saved, st1)" by (cases r)
    from Product_save_nonneg[OF Inr[unfolded r] assms n] Some Inr r
    show ?thesis by (simp add: ProductViewSet_destroy_def)
  qed
qed

lemma ProductSyncView_post_nonneg:
  assumes "stock_nonneg st"
  shows "stock_nonneg (snd (ProductSyncView_post req now rs st))"
proof (cases "ProductSyncSerializer_is_valid rs")
  case False
  with assms show ?thesis by (simp add: ProductSyncView_post_def)
next
  case True
  then have v: "list_all product_rec_valid rs" by (simp add: ProductSyncSerializer_is_valid_def)
  obtain r st1 where h: "sync_products req now rs st = (r, st1)"
    by (cases "sync_products req now rs st")
  from sync_products_nonneg[OF assms v, of req now] h have "stock_nonneg st1" by simp
  with True h show ?thesis by (cases r) (simp_all add: ProductSyncView_post_def)
qed

lemma SaleSyncView_post_nonneg:
  assumes "stock_nonneg st"
  shows "stock_nonneg (snd (SaleSyncView_post req now rs st))"
proof -
  obtain r st1 where h: "sync_sales req now rs st = (r, st1)"
    by (cases "sync_sales req now rs st")
  from sync_sales_nonneg[OF assms, of req now rs] h have "stock_nonneg st1" by simp
  with h assms show ?thesis
    by (cases r) (simp_all add: SaleSyncView_post_def split: sum.splits)
qed

lemma perform_nonneg:
  assumes "stock_nonneg st"
  shows "stock_nonneg (snd (perform op st))"
proof (cases op)
  case (ProductSync req now rs)
  with ProductSyncView_post_nonneg[OF assms] show ?thesis by simp
next
  case (SaleSync req now rs)
  with SaleSyncView_post_nonneg[OF assms] show ?thesis by simp
next
  case (Approve req now u)
  with ApproveSaleView_post_nonneg[OF assms] show ?thesis by simp
next
  case (ApproveAll req now)
  with ApproveAllPendingView_post_nonneg[OF assms] show ?thesis by simp
next
  case (Reject req now u)
  with assms show ?thesis
    by (simp add: RejectSaleView_post_def stock_nonneg_def Sale_save_products split: option.splits)
next
  case (RejectAll req)
  with assms show ?thesis
    by (simp add: RejectAllPendingView_post_def stock_nonneg_def)
next
  case (Reactivate req now u)
  with assms show ?thesis
    by (simp add: SaleViewSet_reactivate_def stock_nonneg_def Sale_save_products split: option.splits)
next
  case (DestroySale req now inc u)
  with SaleViewSet_destroy_nonneg[OF assms] show ?thesis by simp
next
  case (DestroyProduct req now lid)
  with ProductViewSet_destroy_nonneg[OF assms] show ?thesis by simp
qed

lemma run_nonneg: "stock_nonneg st \<Longrightarrow> stock_nonneg (run ops st)"
  by (induction ops arbitrary: st) (simp_all add: perform_nonneg)


text \<open>
  C7. Along every sequence of operations of the core (product sync, sale sync, approve,
  approve-all, reject, reject-all, reactivate, the two destroys), in the database left by
  any number of them, whatever each one answered, the stock of every product is at least
  0, provided it was so at the start.
\<close>

theorem stock_never_negative:
  assumes "stock_nonneg st"
  shows "stock_nonneg (run (take n ops) st)"
  using assms by (rule run_nonneg)

theorem stock_never_negative_witness:
  "stock_nonneg ex_store \<and>
   stock_nonneg (run (take 1 ex_operations) ex_store) \<and>
   stock_nonneg (run (take 3 ex_operations) ex_store) \<and>
   stock_nonneg (run (take 7 ex_operations) ex_store)"
proof -
  have h: "stock_nonneg ex_store" by code_simp
  from h stock_never_negative[OF h, of 1 ex_operations]
    stock_never_negative[OF h, of 3 ex_operations]
    stock_never_negative[OF h, of 7 ex_operations]
  show ?thesis by simp
qed

subsection \<open>Pushing a sale whose uuid the business already has\<close>

lemma find_Some_list_ex: "find P xs = Some x \<Longrightarrow> list_ex P xs"
  by (induction xs) (auto split: if_splits)

lemma list_ex_find_Some: "list_ex P xs \<Longrightarrow> \<exists>x. find P xs = Some x"
  by (induction xs) auto

lemma find_Some_holds: "find P xs = Some x \<Longrightarrow> P x"
  by (induction xs) (auto split: if_splits)

lemma find_write_sale:
  assumes "find (\<lambda>s. s_uuid s = u \<and> s_business s = b) ss = Some obj"
    and "s_uuid obj' = u" and "s_business obj' = b"
  shows "find (\<lambda>s. s_uuid s = u \<and> s_business s = b) (write_sale obj' ss) = Some obj'"
proof -
  from assms(1) have ex: "list_ex (\<lambda>t. s_uuid t = u) ss"
    by (induction ss) (auto split: if_splits)
  have "find (\<lambda>s. s_uuid s = u \<and> s_business s = b) ss = Some obj \<Longrightarrow>
        find (\<lambda>s. s_uuid s = u \<and> s_business s = b)
          (map (\<lambda>t. if s_uuid t = u then obj' else t) ss) = Some obj'"
    using assms(2,3) by (induction ss) (auto split: if_splits)
  with assms ex show ?thesis by (simp add: write_sale_def)
qed

lemma upsert_sale_existing:
  assumes "find (\<lambda>s. s_uuid s = sr_uuid r \<and> s_business s = r_business req) (sales st) = Some obj"
  shows "upsert_sale req now r st =
           Inr ((obj\<lparr>s_total := sr_total r, s_updated_at := now, s_synced_from_device := True,
                      s_active := True, s_created_by := Some (r_user req),
                      s_pending_approval := (r_role req = Worker)\<rparr>, False),
                Sale_save now
                  (obj\<lparr>s_total := sr_total r, s_updated_at := now, s_synced_from_device := True,
                       s_active := True, s_created_by := Some (r_user req),
                       s_pending_approval := (r_role req = Worker)\<rparr>) st)"
  using assms by (simp add: upsert_sale_def Let_def)

lemma sync_sale_record_existing:
  assumes "find (\<lambda>s. s_uuid s = sr_uuid r \<and> s_business s = r_business req) (sales st) = Some obj"
  shows "sync_sale_record req now r st =
           (None, Sale_save now
                    (obj\<lparr>s_total := sr_total r, s_updated_at := now, s_synced_from_device := True,
                         s_active := True, s_created_by := Some (r_user req),
                         s_pending_approval := (r_role req = Worker)\<rparr>) st)"
  by (simp add: sync_sale_record_def upsert_sale_existing[OF assms])

lemma find_Sale_save:
  assumes "find (\<lambda>s. s_uuid s = u \<and> s_business s = b) (sales st) = Some obj"
    and "s_uuid obj' = u" and "s_business obj' = b"
  shows "find (\<lambda>s. s_uuid s = u \<and> s_business s = b) (sales (Sale_save now obj' st)) =
           Some (obj'\<lparr>s_updated_at := now\<rparr>)"
  using find_write_sale[OF assms(1), of "obj'\<lparr>s_updated_at := now\<rparr>"] assms(2,3)
  by (simp add: Sale_save_def)

text \<open>
  C9. When the business already has a sale with the pushed uuid, the push succeeds and
  the stored sale is the old row with \<^verbatim>\<open>total\<close>, \<^verbatim>\<open>created_by\<close>, \<^verbatim>\<open>synced_from_device\<close>,
  \<^verbatim>\<open>active\<close> and \<^verbatim>\<open>pending_approval\<close> (and \<^verbatim>\<open>updated_at\<close>) taken from the current request;
  \<^verbatim>\<open>pending_approval\<close> becomes true exactly when the pusher is a worker, whatever it was.
\<close>

theorem replay_overwrites_sale_fields:
  assumes "find (\<lambda>s. s_uuid s = sr_uuid r \<and> s_business s = r_business req) (sales st) = Some obj"
  shows "fst (sync_sale_record req now r st) = None \<and>
         find (\<lambda>s. s_uuid s = sr_uuid r \<and> s_business s = r_business req)
              (sales (snd (sync_sale_record req now r st))) =
           Some (obj\<lparr>s_total := sr_total r, s_updated_at := now, s_synced_from_device := True,
                     s_active := True, s_created_by := Some (r_user req),
                     s_pending_approval := (r_role req = Worker)\<rparr>)"
proof -
  let ?obj' = "obj\<lparr>s_total := sr_total r, s_updated_at := now, s_synced_from_device := True,
                     s_active := True, s_created_by := Some (r_user req),
                     s_pending_approval := (r_role req = Worker)\<rparr>"
  from find_Some_holds[OF assms] have k: "s_uuid obj = sr_uuid r" "s_business obj = r_business req"
    by simp_all
  from find_Sale_save[OF assms, of ?obj' now] k
  have "find (\<lambda>s. s_uuid s = sr_uuid r \<and> s_business s = r_business req)
             (sales (Sale_save now ?obj' st)) = Some ?obj'"
    by simp
  then show ?thesis by (simp add: sync_sale_record_existing[OF assms])
qed

theorem replay_overwrites_sale_fields_witness:
  "find (\<lambda>s. s_uuid s = sr_uuid ex_sale_push \<and> s_business s = r_business ex_worker)
        (sales ex_store_approved) = Some (ex_sale\<lparr>s_pending_approval := False\<rparr>) \<and>
   fst (sync_sale_record ex_worker 8 ex_sale_push ex_store_approved) = None \<and>
   map s_pending_approval (sales (snd (sync_sale_record ex_worker 8 ex_sale_push ex_store_approved)))
     = [True]"
proof -
  have h: "find (\<lambda>s. s_uuid s = sr_uuid ex_sale_push \<and> s_business s = r_business ex_worker)
        (sales ex_store_approved) = Some (ex_sale\<lparr>s_pending_approval := False\<rparr>)"
    by code_simp
  have e: "map s_pending_approval
             (sales (snd (sync_sale_record ex_worker 8 ex_sale_push ex_store_approved))) = [True]"
    by code_simp
  from replay_overwrites_sale_fields[OF h, of 8] h e show ?thesis by simp
qed

lemma sync_sale_record_existing_frame:
  assumes "list_ex (\<lambda>s. s_uuid s = sr_uuid r \<and> s_business s = r_business req) (sales st)"
  shows "sale_items (snd (sync_sale_record req now r st)) = sale_items st"
    and "products (snd (sync_sale_record req now r st)) = products st"
    and "list_ex (\<lambda>s. s_uuid s = sr_uuid r \<and> s_business s = r_business req)
           (sales (snd (sync_sale_record req now r st)))"
proof -
  from list_ex_find_Some[OF assms] obtain obj where
    f: "find (\<lambda>s. s_uuid s = sr_uuid r \<and> s_business s = r_business req) (sales st) = Some obj"
    by blast
  show "sale_items (snd (sync_sale_record req now r st)) = sale_items st"
    by (simp add: sync_sale_record_existing[OF f] Sale_save_def)
  show "products (snd (sync_sale_record req now r st)) = products st"
    by (simp add: sync_sale_record_existing[OF f] Sale_save_def)
  from find_Some_holds[OF f] have k: "s_uuid obj = sr_uuid r" "s_business obj = r_business req"
    by simp_all
  let ?obj' = "obj\<lparr>s_total := sr_total r, s_updated_at := now, s_synced_from_device := True,
                     s_active := True, s_created_by := Some (r_user req),
                     s_pending_approval := (r_role req = Worker)\<rparr>"
  from find_Sale_save[OF f, of ?obj' now] k
  have "find (\<lambda>s. s_uuid s = sr_uuid r \<and> s_business s = r_business req)
             (sales (Sale_save now ?obj' st)) = Some ?obj'"
    by simp
  then have "list_ex (\<lambda>s. s_uuid s = sr_uuid r \<and> s_business s = r_business req)
             (sales (Sale_save now ?obj' st))"
    by (rule find_Some_list_ex)
  then show "list_ex (\<lambda>s. s_uuid s = sr_uuid r \<and> s_business s = r_business req)
           (sales (snd (sync_sale_record req now r st)))"
    by (simp add: sync_sale_record_existing[OF f])
qed

text \<open>
  C3. Once the business has a sale with the record's uuid, pushing the record again, any
  number of times, by any actors of the business and at any times, creates no line item
  and changes no product: the table of line items and the table of products stay as they
  were.
\<close>

theorem replay_creates_nothing:
  assumes "list_ex (\<lambda>s. s_uuid s = sr_uuid r \<and> s_business s = b) (sales st)"
    and "list_all (\<lambda>(req, now). r_business req = b) pushes"
  shows "sale_items (replay pushes r st) = sale_items st \<and>
         products (replay pushes r st) = products st"
  using assms
proof (induction pushes arbitrary: st)
  case Nil
  then show ?case by (simp add: replay_def)
next
  case (Cons a pushes)
  obtain req now where a: "a = (req, now)" by (cases a)
  with Cons.prems have b: "r_business req = b" and rest: "list_all (\<lambda>(req, now). r_business req = b) pushes"
    by simp_all
  let ?st1 = "snd (sync_sale_record req now r st)"
  from Cons.prems(1) b
  have ex: "list_ex (\<lambda>s. s_uuid s = sr_uuid r \<and> s_business s = r_business req) (sales st)" by simp
  from sync_sale_record_existing_frame[OF ex, of now] b
  have fr: "sale_items ?st1 = sale_items st" "products ?st1 = products st"
    "list_ex (\<lambda>s. s_uuid s = sr_uuid r \<and> s_business s = b) (sales ?st1)"
    by simp_all
  have "replay (a # pushes) r st = replay pushes r ?st1"
    by (simp add: replay_def a)
  with Cons.IH[OF fr(3) rest] fr(1,2) show ?case by simp
qed

theorem replay_creates_nothing_witness:
  "list_ex (\<lambda>s. s_uuid s = sr_uuid ex_sale_push \<and> s_business s = 1) (sales ex_store_approved) \<and>
   list_all (\<lambda>(req, now). r_business req = 1) [(ex_worker, 8), (ex_admin, 9), (ex_worker, 10)] \<and>
   sale_items (replay [(ex_worker, 8), (ex_admin, 9), (ex_worker, 10)] ex_sale_push ex_store_approved)
     = sale_items ex_store_approved \<and>
   products (replay [(ex_worker, 8), (ex_admin, 9), (ex_worker, 10)] ex_sale_push ex_store_approved)
     = products ex_store_approved"
proof -
  have h1: "list_ex (\<lambda>s. s_uuid s = sr_uuid ex_sale_push \<and> s_business s = 1) (sales ex_store_approved)"
    by code_simp
  have h2: "list_all (\<lambda>(req, now). r_business req = 1) [(ex_worker, 8), (ex_admin, 9), (ex_worker, 10)]"
    by code_simp
  from replay_creates_nothing[OF h1 h2] h1 h2 show ?thesis by simp
qed

subsection \<open>Reactivating a sale\<close>

text \<open>
  C10. For an admin and a sale of the admin's business: an active sale is left as it is
  and the answer says so; an inactive one becomes active (its other columns, also
  \<^verbatim>\<open>pending_approval\<close>, stay as they were, \<^verbatim>\<open>updated_at\<close> apart), and no product and no
  line item changes. Nothing asks that the sale had been approved.
\<close>

theorem reactivate_sets_active_only:
  assumes "r_role req = Admin"
    and "find (\<lambda>s. s_uuid s = u \<and> s_business s = r_business req) (sales st) = Some s"
  shows "if s_active s
         then SaleViewSet_reactivate req now u st = (AlreadyActive, st)
         else fst (SaleViewSet_reactivate req now u st) = OK \<and>
              find (\<lambda>s. s_uuid s = u \<and> s_business s = r_business req)
                   (sales (snd (SaleViewSet_reactivate req now u st))) =
                Some (s\<lparr>s_active := True, s_updated_at := now\<rparr>) \<and>
              products (snd (SaleViewSet_reactivate req now u st)) = products st \<and>
              sale_items (snd (SaleViewSet_reactivate req now u st)) = sale_items st"
proof (cases "s_active s")
  case True
  with assms show ?thesis by (simp add: SaleViewSet_reactivate_def)
next
  case False
  from find_Some_holds[OF assms(2)] have k: "s_uuid s = u" "s_business s = r_business req"
    by simp_all
  from find_Sale_save[OF assms(2), of "s\<lparr>s_active := True\<rparr>" now] k
  have "find (\<lambda>s. s_uuid s = u \<and> s_business s = r_business req)
             (sales (Sale_save now (s\<lparr>s_active := True\<rparr>) st)) =
          Some (s\<lparr>s_active := True, s_updated_at := now\<rparr>)"
    by simp
  with False assms show ?thesis
    by (simp add: SaleViewSet_reactivate_def Sale_save_products) (simp add: Sale_save_def)
qed

theorem reactivate_sets_active_only_witness:
  "r_role ex_admin = Admin \<and>
   find (\<lambda>s. s_uuid s = 10 \<and> s_business s = r_business ex_admin) (sales ex_store_rejected) =
     Some (ex_sale\<lparr>s_active := False\<rparr>) \<and>
   fst (SaleViewSet_reactivate ex_admin 11 10 ex_store_rejected) = OK \<and>
   get_pending_sale 10 1 ex_store_rejected = None \<and>
   get_pending_sale 10 1 (snd (SaleViewSet_reactivate ex_admin 11 10 ex_store_rejected)) =
     Some (ex_sale\<lparr>s_updated_at := 11\<rparr>) \<and>
   products (snd (SaleViewSet_reactivate ex_admin 11 10 ex_store_rejected)) = products ex_store_rejected \<and>
   SaleViewSet_reactivate ex_admin 11 10 ex_store = (AlreadyActive, ex_store)"
proof -
  have h1: "r_role ex_admin = Admin" by code_simp
  have h2: "find (\<lambda>s. s_uuid s = 10 \<and> s_business s = r_business ex_admin) (sales ex_store_rejected) =
     Some (ex_sale\<lparr>s_active := False\<rparr>)" by code_simp
  have h3: "find (\<lambda>s. s_uuid s = 10 \<and> s_business s = r_business ex_admin) (sales ex_store) =
     Some ex_sale" by code_simp
  have a: "\<not> s_active (ex_sale\<lparr>s_active := False\<rparr>)" "s_active ex_sale" by code_simp+
  have p: "get_pending_sale 10 1 ex_store_rejected = None"
    "get_pending_sale 10 1 (snd (SaleViewSet_reactivate ex_admin 11 10 ex_store_rejected)) =
       Some (ex_sale\<lparr>s_updated_at := 11\<rparr>)"
    by code_simp+
  from reactivate_sets_active_only[OF h1 h2, of 11] reactivate_sets_active_only[OF h1 h3, of 11]
    h1 h2 a p
  show ?thesis by simp
qed

subsection \<open>Queries that name a field the model does not have\<close>

lemma Product_lookup_local_id:
  "Product_lookup [''business_id'', ''local_id''] = Some FieldError"
  "Product_lookup [''local_id'', ''active'', ''business_id''] = Some FieldError"
  "Product_lookup [''local_id'', ''business_id''] = Some FieldError"
  by (simp_all add: Product_lookup_def Product_fields_def)

lemma upsert_product_raises: "upsert_product req now item st = Inl FieldError"
  by (simp add: upsert_product_def Product_lookup_local_id)

lemma sync_products_raises: "sync_products req now (item # items) st = (Some FieldError, st)"
  by (simp add: upsert_product_raises)

lemma validate_product_id_raises: "validate_product_id req v st = Inl FieldError"
  by (simp add: validate_product_id_def Product_lookup_local_id)

lemma validate_items_raises: "validate_items req st (i # rest) = Inl FieldError"
  by (simp add: validate_product_id_raises)

lemma create_items_raises: "create_items req s (i # rest) st = (Some FieldError, st)"
  by (simp add: Product_lookup_local_id)

text \<open>
  C6 on the code: product A is pushed with \<^verbatim>\<open>updated_at\<close> 4. The lookup of
  \<^verbatim>\<open>update_or_create\<close> names \<^verbatim>\<open>local_id\<close> and raises, the view answers status 500, and the
  database is as before: the stored row of A still has \<^verbatim>\<open>updated_at\<close> 0.
\<close>

theorem product_sync_raises:
  "pr_id ex_product_push = 1 \<and> pr_updated_at ex_product_push = 4 \<and>
   ProductSyncSerializer_is_valid [ex_product_push] \<and>
   ProductSyncView_post ex_worker 9 [ex_product_push] ex_store = (ServerError FieldError, ex_store) \<and>
   map p_updated_at (filter (\<lambda>q. p_business q = 1 \<and> p_id q = 1) (products ex_store)) = [0]"
  by code_simp

text \<open>
  C2 on the code: the sale of two of A for 50.00 is new to the business. Pushed through
  the view, by the admin or by the worker, it ends in \<^verbatim>\<open>FieldError\<close> while the item is
  validated: status 500 and nothing stored. The body of \<^verbatim>\<open>SaleSyncSerializer.create\<close> run
  on it for the admin inserts the sale, raises at the first item, creates no line item
  and leaves the stock of A at 5.
\<close>

theorem new_sale_push_raises:
  "\<not> list_ex (\<lambda>s. s_uuid s = sr_uuid ex_new_push \<and> s_business s = 1) (sales ex_store) \<and>
   SaleSyncView_post ex_admin 5 [ex_new_push] ex_store = (ServerError FieldError, ex_store) \<and>
   SaleSyncView_post ex_worker 5 [ex_new_push] ex_store = (ServerError FieldError, ex_store) \<and>
   fst (sync_sale_record ex_admin 5 ex_new_push ex_store) = Some FieldError \<and>
   sale_items (snd (sync_sale_record ex_admin 5 ex_new_push ex_store)) = sale_items ex_store \<and>
   stock_of 1 ex_store = Some 5 \<and>
   stock_of 1 (snd (sync_sale_record ex_admin 5 ex_new_push ex_store)) = Some 5"
  by code_simp

text \<open>
  C5 on the code: a new sale pushed with total 100.00 and one item of 99.50 ends in
  \<^verbatim>\<open>FieldError\<close> (status 500), not in a validation error about the total. A new sale
  pushed with total 100.00 and no item is valid, answered with success and stored: the
  sync serializers compare the total with nothing. \<^verbatim>\<open>SaleSerializer.validate\<close>, the check
  of the direct creation path, refuses a total of 100.00 against items of 99.50.
\<close>

theorem sync_total_check_absent:
  "sr_total ex_mismatch_push = 10000 \<and>
   sum_list (map ir_total_price (sr_items_data ex_mismatch_push)) = 9950 \<and>
   SaleSyncView_post ex_admin 5 [ex_mismatch_push] ex_store = (ServerError FieldError, ex_store) \<and>
   sr_total ex_bare_push = 10000 \<and>
   sum_list (map ir_total_price (sr_items_data ex_bare_push)) = 0 \<and>
   SaleSyncSerializer_is_valid ex_admin [ex_bare_push] ex_store = Inr True \<and>
   fst (SaleSyncView_post ex_admin 5 [ex_bare_push] ex_store) = OK \<and>
   map s_total (filter (\<lambda>s. s_uuid s = 14)
     (sales (snd (SaleSyncView_post ex_admin 5 [ex_bare_push] ex_store)))) = [10000] \<and>
   \<not> SaleSerializer_validate 10000 [9950]"
  by code_simp

text \<open>
  C8 on the code: an admin pushes a new sale asking for three of B, of which one is in
  stock. The request ends in \<^verbatim>\<open>FieldError\<close> (status 500) before any stock is looked at: no
  insufficient-stock error reaches the caller. The decrement loop of
  \<^verbatim>\<open>SaleSyncSerializer.create\<close> itself, run on the two items of the example sale, passes
  over the item of B without an error and leaves its stock at 1, where the loop of the
  approval views answers that B lacks stock.
\<close>

theorem admin_shortage_not_reported:
  "stock_of 2 ex_store = Some 1 \<and>
   map ir_quantity (sr_items_data ex_short_push) = [3] \<and>
   SaleSyncView_post ex_admin 5 [ex_short_push] ex_store = (ServerError FieldError, ex_store) \<and>
   map (\<lambda>i. (si_product i, si_quantity i)) (items_of ex_sale ex_store) = [(1, 2), (2, 3)] \<and>
   fst (decrement_items 5 (items_of ex_sale ex_store) ex_store) = None \<and>
   stock_of 2 (snd (decrement_items 5 (items_of ex_sale ex_store) ex_store)) = Some 1 \<and>
   fst (approve_items 5 (items_of ex_sale ex_store) ex_store) = Some (InsufficientStock ''B'')"
  by code_simp

end
